theory Spec2Isabelle
  imports Complex_Main "HOL-Library.Sublist"
begin

section \<open>Data model (hostdb.go)\<close>

text \<open>
  Instants are nanoseconds counted from Go's zero \<^verbatim>\<open>time.Time\<close>; a
  \<^verbatim>\<open>time.Duration\<close> is a signed 64-bit count of nanoseconds, kept as an
  \<^typ>\<open>int\<close> with saturation and wrap-around written out where the source
  computes with it.
\<close>

type_synonym Time = int
type_synonym Duration = int
type_synonym PublicKey = string

text \<open>
  The settings and the price table come from an external library; the scanner
  never reads their fields, it only stores the snapshot it received.
\<close>

datatype HostSettings = HostSettings (settings_bytes: string)
datatype HostPriceTable = HostPriceTable (pricetable_bytes: string)

record HostInteractions =
  HistoricSuccesses :: real
  HistoricFailures :: real
  RecentSuccesses :: real
  RecentFailures :: real
  LastUpdate :: nat

record HostScan =
  Timestamp :: Time
  Success :: bool
  Latency :: Duration
  Error :: string
  Settings :: HostSettings
  PriceTable :: HostPriceTable

record HostBenchmark =
  bm_Timestamp :: Time
  bm_Success :: bool
  bm_Error :: string
  UploadSpeed :: real
  DownloadSpeed :: real
  TTFB :: Duration

record HostDBEntry =
  ID :: int
  PublicKey :: PublicKey
  FirstSeen :: Time
  KnownSince :: nat
  NetAddress :: string
  Blocked :: bool
  Uptime :: Duration
  Downtime :: Duration
  ScanHistory :: "HostScan list"
  LastBenchmark :: HostBenchmark
  Interactions :: HostInteractions
  LastSeen :: Time
  IPNets :: "string list"
  LastIPChange :: Time
  host_Settings :: HostSettings
  host_PriceTable :: HostPriceTable

text \<open>The scheduling state of \<^verbatim>\<open>HostDB\<close>, the fields guarded by \<^verbatim>\<open>mu\<close>.\<close>

record HostDB =
  benchmarking :: bool
  initialScanLatencies :: "Duration list"
  scanList :: "HostDBEntry list"
  benchmarkList :: "HostDBEntry list"
  scanMap :: "PublicKey \<rightharpoonup> bool"
  scanThreads :: int

text \<open>
  Calls that leave the scanner: the mutex, the logger, the store, the transport
  helpers and the interaction accumulator. A run of the scanner returns the
  calls it made, in order.
\<close>

datatype call =
    Mu_Lock
  | Mu_Unlock
  | Log_Print string
  | Call_LookupIPNets string
  | Call_updateHostHistoricInteractions PublicKey
  | Call_WithTransportV2 Duration string PublicKey
  | Call_WithTransportV3 Duration string PublicKey
  | Call_IncrementSuccessfulInteractions PublicKey
  | Call_IncrementFailedInteractions PublicKey
  | Call_updateScanHistory PublicKey HostScan
  | Call_benchmarkHost PublicKey
  | Tg_Add
  | Tg_Done

section \<open>Constants and time arithmetic\<close>

definition Nanosecond :: Duration where "Nanosecond = 1"
definition Millisecond :: Duration where "Millisecond = 1000000"
definition Second :: Duration where "Second = 1000000000"
definition Minute :: Duration where "Minute = 60 * 1000000000"
definition Hour :: Duration where "Hour = 60 * (60 * 1000000000)"

definition scanInterval :: Duration where "scanInterval = 30 * Minute"
definition scanCheckInterval :: Duration where "scanCheckInterval = 15 * Second"
definition maxScanThreads :: int where "maxScanThreads = 100"
definition minScans :: nat where "minScans = 25"

definition maxDuration :: Duration where "maxDuration = 2 ^ 63 - 1"
definition minDuration :: Duration where "minDuration = - (2 ^ 63)"

text \<open>Signed 64-bit wrap-around, for \<^verbatim>\<open>*=\<close> and \<^verbatim>\<open>+\<close> on a Duration.\<close>

definition wrap64 :: "int \<Rightarrow> int" where
  "wrap64 x = (x + 2 ^ 63) mod 2 ^ 64 - 2 ^ 63"

text \<open>\<^verbatim>\<open>Time.IsZero\<close> and \<^verbatim>\<open>time.Since\<close> (a subtraction that saturates).\<close>

definition IsZero :: "Time \<Rightarrow> bool" where
  "IsZero t = (t = 0)"

definition Since :: "Time \<Rightarrow> Time \<Rightarrow> Duration" where
  "Since now t =
     (if now - t > maxDuration then maxDuration
      else if now - t < minDuration then minDuration
      else now - t)"

section \<open>calculateScanInterval\<close>

text \<open>
  The clock is read once per call here. The source reads it at every test;
  the readings only grow and the thresholds are tested from the largest down.
\<close>

definition calculateScanInterval :: "Time \<Rightarrow> HostDBEntry \<Rightarrow> Duration" where
  "calculateScanInterval now host =
     (if IsZero (LastSeen host) then scanInterval
      else if Since now (LastSeen host) > 28 * 24 * Hour then scanInterval * 48
      else if Since now (LastSeen host) > 14 * 24 * Hour then scanInterval * 24
      else if Since now (LastSeen host) > 7 * 24 * Hour then scanInterval * 12
      else if Since now (LastSeen host) > 3 * 24 * Hour then scanInterval * 8
      else if Since now (LastSeen host) > 2 * 24 * Hour then scanInterval * 4
      else if Since now (LastSeen host) > 24 * Hour then scanInterval * 2
      else scanInterval)"

text \<open>The table of the specification, over the true time since last-seen.\<close>

definition interval_table :: "Time \<Rightarrow> HostDBEntry \<Rightarrow> Duration" where
  "interval_table now host =
     (let d = now - LastSeen host in
      if IsZero (LastSeen host) \<or> d \<le> 24 * Hour then 30 * Minute
      else if d \<le> 2 * 24 * Hour then 1 * Hour
      else if d \<le> 3 * 24 * Hour then 2 * Hour
      else if d \<le> 7 * 24 * Hour then 4 * Hour
      else if d \<le> 14 * 24 * Hour then 6 * Hour
      else if d \<le> 28 * 24 * Hour then 12 * Hour
      else 24 * Hour)"

section \<open>queueScan\<close>

text \<open>
  The state is returned with the calls made on the mutex. The clock is read
  once, as in \<open>calculateScanInterval\<close>.
\<close>

definition queueScan :: "Time \<Rightarrow> HostDBEntry \<Rightarrow> HostDB \<Rightarrow> HostDB \<times> call list" where
  "queueScan now host hdb =
     (case scanMap hdb (PublicKey host) of
        Some _ \<Rightarrow> (hdb, [Mu_Lock, Mu_Unlock])
      | None \<Rightarrow>
          (let toBenchmark =
                 (length (ScanHistory host) > 0 \<and>
                  Since now (Timestamp (last (ScanHistory host))) < calculateScanInterval now host);
               hdb1 = hdb\<lparr>scanMap := (scanMap hdb)(PublicKey host \<mapsto> toBenchmark)\<rparr>;
               hdb2 = (if toBenchmark
                       then hdb1\<lparr>benchmarkList := benchmarkList hdb1 @ [host]\<rparr>
                       else hdb1\<lparr>scanList := scanList hdb1 @ [host]\<rparr>)
           in (hdb2, [Mu_Lock, Mu_Unlock])))"

section \<open>Collaborators and the inputs of one scan\<close>

text \<open>A Go \<^verbatim>\<open>error\<close>: \<open>None\<close> is \<^verbatim>\<open>nil\<close>, \<open>Some m\<close> an error whose \<^verbatim>\<open>Error()\<close> is \<open>m\<close>.\<close>

type_synonym go_error = "string option"

text \<open>
  Functions of the package and of its libraries whose bodies are not part of
  the scanner file. They receive the host through a pointer, so each returns
  the host as it leaves it.
\<close>

record ext =
  EqualIPNets :: "string list \<Rightarrow> string list \<Rightarrow> bool"
  SiamuxAddr :: "HostSettings \<Rightarrow> string"
  updateHostHistoricInteractions :: "HostDBEntry \<Rightarrow> HostDBEntry"
  IncrementSuccessfulInteractions :: "HostDBEntry \<Rightarrow> HostDBEntry"
  IncrementFailedInteractions :: "HostDBEntry \<Rightarrow> HostDBEntry"
  updateScanHistory :: "HostDBEntry \<Rightarrow> HostScan \<Rightarrow> HostDBEntry \<times> go_error"
  benchmarkHost :: "HostDBEntry \<Rightarrow> HostDB \<Rightarrow> HostDBEntry \<times> HostDB"

text \<open>
  What the network and the clock answer during one call of \<^verbatim>\<open>scanHost\<close>:
  the result of the address lookup, the clock readings, and for each handshake
  the value left in the result variable together with the error returned.
\<close>

record scan_io =
  lookup_result :: "string list \<times> go_error"
  ipchange_now :: Time
  start_now :: Time
  rhp2_result :: "HostSettings \<times> go_error"
  since_start :: Duration
  rhp3_result :: "HostPriceTable \<times> go_error"

text \<open>\<^verbatim>\<open>strings.Contains\<close>.\<close>

fun Contains :: "string \<Rightarrow> string \<Rightarrow> bool" where
  "Contains [] substr = (substr = [])"
| "Contains (c # cs) substr = (prefix substr (c # cs) \<or> Contains cs substr)"

section \<open>scanHost\<close>

text \<open>The timeout of lines 69 to 80.\<close>

definition scanTimeout :: "HostDB \<Rightarrow> Duration" where
  "scanTimeout hdb =
     (if length (initialScanLatencies hdb) = minScans
      then (let timeout =
                  wrap64 (initialScanLatencies hdb ! (length (initialScanLatencies hdb) div 2) * 5)
            in if timeout > 2 * Minute then 2 * Minute else timeout)
      else 2 * Minute)"

text \<open>The locals that the closure of lines 68 to 117 leaves behind.\<close>

record attempt =
  att_err :: go_error
  att_start :: Time
  att_latency :: Duration
  att_success :: bool
  att_settings :: HostSettings
  att_pt :: HostPriceTable
  att_calls :: "call list"

definition protocolAttempt :: "ext \<Rightarrow> scan_io \<Rightarrow> HostDBEntry \<Rightarrow> HostDB \<Rightarrow> attempt" where
  "protocolAttempt X io host hdb =
     (let timeout = scanTimeout hdb;
          cs0 = [Mu_Lock] @
                (if length (initialScanLatencies hdb) > minScans
                 then [Log_Print ''[ERROR] initialScanLatencies should never be greater than 25'']
                 else []) @
                [Mu_Unlock];
          deadline = wrap64 (timeout + 4 * Minute);
          (settings, err2) = rhp2_result io;
          cs1 = cs0 @ [Call_WithTransportV2 deadline (NetAddress host) (PublicKey host)]
      in if err2 = None
         then (let (pt, err3) = rhp3_result io
               in \<lparr>att_err = err3, att_start = start_now io, att_latency = since_start io,
                   att_success = True, att_settings = settings, att_pt = pt,
                   att_calls = cs1 @ [Call_WithTransportV3 deadline (SiamuxAddr X settings)
                                        (PublicKey host)]\<rparr>)
         else \<lparr>att_err = err2, att_start = start_now io, att_latency = since_start io,
                att_success = False, att_settings = settings, att_pt = HostPriceTable [],
                att_calls = cs1\<rparr>)"

text \<open>Line 118: the error is not nil and its text contains the marker.\<close>

definition canceled :: "go_error \<Rightarrow> bool" where
  "canceled err = (case err of None \<Rightarrow> False | Some m \<Rightarrow> Contains m ''canceled'')"

text \<open>Lines 146 to 154.\<close>

definition addLatency :: "bool \<Rightarrow> Duration \<Rightarrow> Duration list \<Rightarrow> Duration list" where
  "addLatency success latency lats =
     (if success \<and> length lats < 25
      then (let lats1 = lats @ [latency]
            in if length lats1 = 25 then sort lats1 else lats1)
      else lats)"

text \<open>Lines 48 to 52: the host after the address lookup.\<close>

definition resolveHost :: "ext \<Rightarrow> scan_io \<Rightarrow> HostDBEntry \<Rightarrow> HostDBEntry" where
  "resolveHost X io host =
     (let (ipNets, err) = lookup_result io
      in if err = None \<and> \<not> EqualIPNets X ipNets (IPNets host)
         then host\<lparr>IPNets := ipNets, LastIPChange := ipchange_now io\<rparr>
         else host)"

definition scanHost :: "ext \<Rightarrow> scan_io \<Rightarrow> HostDBEntry \<Rightarrow> HostDB \<Rightarrow> HostDBEntry \<times> HostDB \<times> call list" where
  "scanHost X io host hdb =
     (let host1 = resolveHost X io host;
          cs1 = [Call_LookupIPNets (NetAddress host)] @
                (case snd (lookup_result io) of None \<Rightarrow> []
                 | Some e \<Rightarrow> [Log_Print (''[ERROR] failed to look up IP nets: '' @ e)]);
          host2 = updateHostHistoricInteractions X host1;
          cs2 = cs1 @ [Mu_Lock, Call_updateHostHistoricInteractions (PublicKey host1), Mu_Unlock];
          a = protocolAttempt X io host2 hdb;
          cs3 = cs2 @ att_calls a
      in if canceled (att_err a) then (host2, hdb, cs3)
         else
           (let (host3, errMsg, cs4) =
                  (case att_err a of
                     None \<Rightarrow> (IncrementSuccessfulInteractions X host2, [],
                              cs3 @ [Call_IncrementSuccessfulInteractions (PublicKey host2)])
                   | Some e \<Rightarrow> (IncrementFailedInteractions X host2, e,
                                cs3 @ [Call_IncrementFailedInteractions (PublicKey host2),
                                       Log_Print (''[DEBUG] scan of '' @
                                         NetAddress (IncrementFailedInteractions X host2) @
                                         '' failed: '' @ e)]));
                scan = \<lparr>Timestamp = att_start a, Success = att_success a,
                        Latency = att_latency a, Error = errMsg,
                        Settings = att_settings a, PriceTable = att_pt a\<rparr>;
                (host4, serr) = updateScanHistory X host3 scan;
                cs5 = cs4 @ [Call_updateScanHistory (PublicKey host3) scan] @
                      (case serr of None \<Rightarrow> []
                       | Some e \<Rightarrow> [Log_Print (''[ERROR] couldn't update scan history: '' @ e)]);
                hdb1 = hdb\<lparr>initialScanLatencies :=
                             addLatency (att_success a) (att_latency a) (initialScanLatencies hdb)\<rparr>;
                hdb2 = hdb1\<lparr>scanMap := (scanMap hdb1)(PublicKey host4 := None),
                            scanThreads := wrap64 (scanThreads hdb1 - 1)\<rparr>
            in (host4, hdb2, cs5 @ [Mu_Lock, Mu_Unlock])))"

text \<open>The error that the closure of lines 68 to 117 returns (line 116).\<close>

definition attemptError :: "scan_io \<Rightarrow> go_error" where
  "attemptError io =
     (case snd (rhp2_result io) of None \<Rightarrow> snd (rhp3_result io) | Some e \<Rightarrow> Some e)"

section \<open>scanHosts and its goroutines, statement by statement\<close>

text \<open>
  The dispatcher (the loop of lines 183 to 233) and the goroutines it launches
  run concurrently on the shared state and on the mutex \<^verbatim>\<open>hdb.mu\<close>. Each
  takes one step at a time: a mutex operation, or one statement that reads or
  writes the scan-thread counter or the latency buffer (the sort of line 150
  is one step); statements that touch neither are grouped with a neighbouring
  step. The steps of different goroutines interleave in any order.

  \<^verbatim>\<open>Lock\<close> waits while the mutex is held: the step is not enabled.
  \<^verbatim>\<open>Unlock\<close> of a mutex that is not held is a fatal error of the Go
  runtime, and so is an index out of range; either ends the process.

  The dispatcher is taken from line 184 on, after its own registration and
  the wait for the syncer. That it returns on the stop signal needs no step:
  a dispatcher that has returned takes no further step, and every beginning of
  a run is a run.
\<close>

datatype fatal = Unlock_of_unlocked_mutex | Index_out_of_range

datatype wkind = Scan_worker | Benchmark_worker

text \<open>
  Where a goroutine stands: about to call \<^verbatim>\<open>tg.Add\<close> (line 192 or 214),
  about to unlock after a refusal (193 or 215), then for a scan the statements
  of \<^verbatim>\<open>scanHost\<close> in order, for a benchmark the call of
  \<^verbatim>\<open>benchmarkHost\<close>, and at the end the deferred \<^verbatim>\<open>tg.Done\<close>
  and the return.
\<close>

datatype wpc =
    W_add
  | W_refused
  | W_resolve
  | W_hist_lock
  | W_hist
  | W_hist_unlock
  | W_t_lock
  | W_t_check1
  | W_t_check2
  | W_t_read
  | W_t_unlock
  | W_attempt
  | W_classify
  | W_record
  | W_lat_test
  | W_lat_append
  | W_lat_test2
  | W_lat_sort
  | W_book_lock
  | W_delete
  | W_dec
  | W_book_unlock
  | W_bench
  | W_exit

text \<open>
  A goroutine: its kind, where it stands, what \<^verbatim>\<open>tg.Add\<close> and the
  network answer it, the host entry as it has left it so far, and its local
  \<^verbatim>\<open>timeout\<close>.
\<close>

record worker =
  w_kind :: wkind
  w_pc :: wpc
  w_add_err :: go_error
  w_io :: scan_io
  w_host :: HostDBEntry
  w_timeout :: Duration

text \<open>
  Where the dispatcher stands: inside \<^verbatim>\<open>getHostsForScan\<close> (line 184),
  inside a call of \<^verbatim>\<open>queueScan\<close> made from there, at the statements of
  the scan loop (185 to 205), of the benchmark loop (207 to 226), or at the
  tick (228 to 232).
\<close>

datatype dpc =
    D_fetch
  | D_queue Time HostDBEntry
  | D_queue_unlock
  | D_test
  | D_lock
  | D_check
  | D_inc
  | D_pop
  | D_go HostDBEntry
  | D_unlock
  | D_unlock_break
  | D_btest
  | D_block
  | D_bcheck
  | D_bset
  | D_bpop
  | D_bgo HostDBEntry
  | D_bunlock
  | D_bunlock_break
  | D_tick

text \<open>
  The whole system: the shared state, whether the mutex is held, where the
  dispatcher stands, the goroutines that were launched and have not returned,
  and the fatal error if there was one.
\<close>

record sys =
  db :: HostDB
  mu :: bool
  disp :: dpc
  workers :: "worker list"
  crashed :: "fatal option"

definition Lock :: "sys \<Rightarrow> sys option" where
  "Lock s = (if mu s then None else Some (s\<lparr>mu := True\<rparr>))"

definition Unlock :: "sys \<Rightarrow> sys" where
  "Unlock s = (if mu s then s\<lparr>mu := False\<rparr> else s\<lparr>crashed := Some Unlock_of_unlocked_mutex\<rparr>)"

definition goto :: "nat \<Rightarrow> worker \<Rightarrow> wpc \<Rightarrow> sys \<Rightarrow> sys" where
  "goto i w pc s = s\<lparr>workers := (workers s)[i := w\<lparr>w_pc := pc\<rparr>]\<rparr>"

text \<open>A goroutine that returns is no longer among the live ones.\<close>

definition return :: "nat \<Rightarrow> sys \<Rightarrow> sys" where
  "return i s = s\<lparr>workers := take i (workers s) @ drop (Suc i) (workers s)\<rparr>"

text \<open>Lines 122 to 143: the host after the increment and the store's update.\<close>

definition recordScan :: "ext \<Rightarrow> scan_io \<Rightarrow> HostDBEntry \<Rightarrow> HostDBEntry" where
  "recordScan X io host =
     (let host3 = (case attemptError io of
                     None \<Rightarrow> IncrementSuccessfulInteractions X host
                   | Some e \<Rightarrow> IncrementFailedInteractions X host);
          scan = \<lparr>Timestamp = start_now io, Success = (snd (rhp2_result io) = None),
                  Latency = since_start io,
                  Error = (case attemptError io of None \<Rightarrow> [] | Some e \<Rightarrow> e),
                  Settings = fst (rhp2_result io),
                  PriceTable = (if snd (rhp2_result io) = None then fst (rhp3_result io)
                                else HostPriceTable [])\<rparr>
      in fst (updateScanHistory X host3 scan))"

text \<open>
  One step of the scan goroutine \<open>i\<close> (lines 191 to 198, with
  \<^verbatim>\<open>scanHost\<close> inlined), from the place given.
\<close>

fun scanWorker :: "ext \<Rightarrow> nat \<Rightarrow> worker \<Rightarrow> wpc \<Rightarrow> sys \<Rightarrow> sys option" where
  "scanWorker X i w W_add s =
     Some (goto i w (if w_add_err w = None then W_resolve else W_refused) s)"
| "scanWorker X i w W_refused s = Some (return i (Unlock s))"
| "scanWorker X i w W_resolve s =
     Some (goto i (w\<lparr>w_host := resolveHost X (w_io w) (w_host w)\<rparr>) W_hist_lock s)"
| "scanWorker X i w W_hist_lock s = map_option (goto i w W_hist) (Lock s)"
| "scanWorker X i w W_hist s =
     Some (goto i (w\<lparr>w_host := updateHostHistoricInteractions X (w_host w)\<rparr>) W_hist_unlock s)"
| "scanWorker X i w W_hist_unlock s = Some (goto i w W_t_lock (Unlock s))"
| "scanWorker X i w W_t_lock s =
     map_option (goto i (w\<lparr>w_timeout := 2 * Minute\<rparr>) W_t_check1) (Lock s)"
| "scanWorker X i w W_t_check1 s = Some (goto i w W_t_check2 s)"
| "scanWorker X i w W_t_check2 s =
     Some (goto i w (if length (initialScanLatencies (db s)) = minScans
                     then W_t_read else W_t_unlock) s)"
| "scanWorker X i w W_t_read s =
     (let lats = initialScanLatencies (db s); k = length lats div 2
      in if k < length lats
         then Some (goto i
                (w\<lparr>w_timeout := (let timeout = wrap64 (lats ! k * 5)
                                 in if timeout > 2 * Minute then 2 * Minute else timeout)\<rparr>)
                W_t_unlock s)
         else Some (s\<lparr>crashed := Some Index_out_of_range\<rparr>))"
| "scanWorker X i w W_t_unlock s = Some (goto i w W_attempt (Unlock s))"
| "scanWorker X i w W_attempt s = Some (goto i w W_classify s)"
| "scanWorker X i w W_classify s =
     Some (goto i w (if canceled (attemptError (w_io w)) then W_exit else W_record) s)"
| "scanWorker X i w W_record s =
     Some (goto i (w\<lparr>w_host := recordScan X (w_io w) (w_host w)\<rparr>) W_lat_test s)"
| "scanWorker X i w W_lat_test s =
     Some (goto i w (if snd (rhp2_result (w_io w)) = None \<and>
                        length (initialScanLatencies (db s)) < 25
                     then W_lat_append else W_book_lock) s)"
| "scanWorker X i w W_lat_append s =
     Some (goto i w W_lat_test2
       (s\<lparr>db := (db s)\<lparr>initialScanLatencies :=
                   initialScanLatencies (db s) @ [since_start (w_io w)]\<rparr>\<rparr>))"
| "scanWorker X i w W_lat_test2 s =
     Some (goto i w (if length (initialScanLatencies (db s)) = 25
                     then W_lat_sort else W_book_lock) s)"
| "scanWorker X i w W_lat_sort s =
     Some (goto i w W_book_lock
       (s\<lparr>db := (db s)\<lparr>initialScanLatencies := sort (initialScanLatencies (db s))\<rparr>\<rparr>))"
| "scanWorker X i w W_book_lock s = map_option (goto i w W_delete) (Lock s)"
| "scanWorker X i w W_delete s =
     Some (goto i w W_dec
       (s\<lparr>db := (db s)\<lparr>scanMap := (scanMap (db s))(PublicKey (w_host w) := None)\<rparr>\<rparr>))"
| "scanWorker X i w W_dec s =
     Some (goto i w W_book_unlock
       (s\<lparr>db := (db s)\<lparr>scanThreads := wrap64 (scanThreads (db s) - 1)\<rparr>\<rparr>))"
| "scanWorker X i w W_book_unlock s = Some (goto i w W_exit (Unlock s))"
| "scanWorker X i w W_exit s = Some (return i s)"
| "scanWorker X i w W_bench s = None"

text \<open>
  One step of the benchmark goroutine \<open>i\<close> (lines 213 to 220). The body of
  \<^verbatim>\<open>benchmarkHost\<close> is not in the scanner file: its call is one step.
\<close>

fun benchmarkWorker :: "ext \<Rightarrow> nat \<Rightarrow> worker \<Rightarrow> wpc \<Rightarrow> sys \<Rightarrow> sys option" where
  "benchmarkWorker X i w W_add s =
     Some (goto i w (if w_add_err w = None then W_bench else W_refused) s)"
| "benchmarkWorker X i w W_refused s = Some (return i (Unlock s))"
| "benchmarkWorker X i w W_bench s =
     (let (host', hdb') = benchmarkHost X (w_host w) (db s)
      in Some (goto i (w\<lparr>w_host := host'\<rparr>) W_exit (s\<lparr>db := hdb'\<rparr>)))"
| "benchmarkWorker X i w W_exit s = Some (return i s)"
| "benchmarkWorker X i w pc s = None"

text \<open>
  One step of the dispatcher, from the place given. Launching a goroutine and
  entering \<^verbatim>\<open>queueScan\<close> are steps of their own, below.
\<close>

fun dispatcher :: "dpc \<Rightarrow> sys \<Rightarrow> sys option" where
  "dispatcher D_fetch s = Some (s\<lparr>disp := D_test\<rparr>)"
| "dispatcher (D_queue now host) s =
     Some (s\<lparr>db := fst (queueScan now host (db s)), disp := D_queue_unlock\<rparr>)"
| "dispatcher D_queue_unlock s = Some ((Unlock s)\<lparr>disp := D_fetch\<rparr>)"
| "dispatcher D_test s =
     Some (s\<lparr>disp := (if length (scanList (db s)) > 0 then D_lock else D_btest)\<rparr>)"
| "dispatcher D_lock s = map_option (\<lambda>s'. s'\<lparr>disp := D_check\<rparr>) (Lock s)"
| "dispatcher D_check s =
     Some (s\<lparr>disp := (if scanThreads (db s) < maxScanThreads then D_inc else D_unlock_break)\<rparr>)"
| "dispatcher D_inc s =
     Some (s\<lparr>db := (db s)\<lparr>scanThreads := wrap64 (scanThreads (db s) + 1)\<rparr>, disp := D_pop\<rparr>)"
| "dispatcher D_pop s =
     (case scanList (db s) of
        [] \<Rightarrow> Some (s\<lparr>crashed := Some Index_out_of_range\<rparr>)
      | entry # rest \<Rightarrow> Some (s\<lparr>db := (db s)\<lparr>scanList := rest\<rparr>, disp := D_go entry\<rparr>))"
| "dispatcher (D_go entry) s = None"
| "dispatcher D_unlock s = Some ((Unlock s)\<lparr>disp := D_test\<rparr>)"
| "dispatcher D_unlock_break s = Some ((Unlock s)\<lparr>disp := D_btest\<rparr>)"
| "dispatcher D_btest s =
     Some (s\<lparr>disp := (if length (benchmarkList (db s)) > 0 then D_block else D_tick)\<rparr>)"
| "dispatcher D_block s = map_option (\<lambda>s'. s'\<lparr>disp := D_bcheck\<rparr>) (Lock s)"
| "dispatcher D_bcheck s =
     Some (s\<lparr>disp := (if \<not> benchmarking (db s) then D_bset else D_bunlock_break)\<rparr>)"
| "dispatcher D_bset s = Some (s\<lparr>db := (db s)\<lparr>benchmarking := True\<rparr>, disp := D_bpop\<rparr>)"
| "dispatcher D_bpop s =
     (case benchmarkList (db s) of
        [] \<Rightarrow> Some (s\<lparr>crashed := Some Index_out_of_range\<rparr>)
      | entry # rest \<Rightarrow> Some (s\<lparr>db := (db s)\<lparr>benchmarkList := rest\<rparr>, disp := D_bgo entry\<rparr>))"
| "dispatcher (D_bgo entry) s = None"
| "dispatcher D_bunlock s = Some ((Unlock s)\<lparr>disp := D_btest\<rparr>)"
| "dispatcher D_bunlock_break s = Some ((Unlock s)\<lparr>disp := D_tick\<rparr>)"
| "dispatcher D_tick s = Some (s\<lparr>disp := D_fetch\<rparr>)"

text \<open>
  What can happen next: the store hands a host to \<^verbatim>\<open>queueScan\<close>, which
  locks; the dispatcher starts the goroutine it has prepared, whose answers
  from \<^verbatim>\<open>tg.Add\<close> and from the network are fixed here; the dispatcher or
  the goroutine \<open>i\<close> takes its next step. After a fatal error nothing happens.
\<close>

datatype event =
    Ev_queueScan Time HostDBEntry
  | Ev_go go_error scan_io
  | Ev_dispatcher
  | Ev_worker nat

definition new_worker :: "wkind \<Rightarrow> go_error \<Rightarrow> scan_io \<Rightarrow> HostDBEntry \<Rightarrow> worker" where
  "new_worker k add_err io entry =
     \<lparr>w_kind = k, w_pc = W_add, w_add_err = add_err, w_io = io, w_host = entry, w_timeout = 0\<rparr>"

definition step :: "ext \<Rightarrow> event \<Rightarrow> sys \<Rightarrow> sys option" where
  "step X ev s =
     (if crashed s \<noteq> None then None
      else case ev of
        Ev_queueScan now host \<Rightarrow>
          (if disp s = D_fetch then map_option (\<lambda>s'. s'\<lparr>disp := D_queue now host\<rparr>) (Lock s)
           else None)
      | Ev_go add_err io \<Rightarrow>
          (case disp s of
             D_go entry \<Rightarrow>
               Some (s\<lparr>workers := workers s @ [new_worker Scan_worker add_err io entry],
                       disp := D_unlock\<rparr>)
           | D_bgo entry \<Rightarrow>
               Some (s\<lparr>workers := workers s @ [new_worker Benchmark_worker add_err io entry],
                       disp := D_bunlock\<rparr>)
           | _ \<Rightarrow> None)
      | Ev_dispatcher \<Rightarrow> dispatcher (disp s) s
      | Ev_worker i \<Rightarrow>
          (if i < length (workers s)
           then (case w_kind (workers s ! i) of
                   Scan_worker \<Rightarrow> scanWorker X i (workers s ! i) (w_pc (workers s ! i)) s
                 | Benchmark_worker \<Rightarrow>
                     benchmarkWorker X i (workers s ! i) (w_pc (workers s ! i)) s)
           else None))"

fun run :: "ext \<Rightarrow> event list \<Rightarrow> sys \<Rightarrow> sys option" where
  "run X [] s = Some s"
| "run X (ev # evs) s = (case step X ev s of None \<Rightarrow> None | Some s' \<Rightarrow> run X evs s')"

text \<open>The state that \<^verbatim>\<open>NewHostDB\<close> builds, and the system when the dispatcher starts.\<close>

definition NewHostDB :: HostDB where
  "NewHostDB = \<lparr>benchmarking = False, initialScanLatencies = [], scanList = [],
                benchmarkList = [], scanMap = Map.empty, scanThreads = 0\<rparr>"

definition NewSys :: sys where
  "NewSys = \<lparr>db = NewHostDB, mu = False, disp = D_fetch, workers = [], crashed = None\<rparr>"

section \<open>Counting the scan goroutines\<close>

text \<open>
  A scan goroutine is counted from its launch until it has run the decrement
  of line 159; one that was refused by the thread group will not get there.
\<close>

fun before_decrement_pc :: "wpc \<Rightarrow> bool" where
  "before_decrement_pc W_refused = False"
| "before_decrement_pc W_book_unlock = False"
| "before_decrement_pc W_bench = False"
| "before_decrement_pc W_exit = False"
| "before_decrement_pc pc = True"

definition before_decrement :: "worker \<Rightarrow> bool" where
  "before_decrement w = (w_kind w = Scan_worker \<and> before_decrement_pc (w_pc w))"

text \<open>
  The dispatcher has incremented the counter (line 188) and has not yet
  started the goroutine (line 191).
\<close>

fun launching :: "dpc \<Rightarrow> int" where
  "launching D_pop = 1"
| "launching (D_go entry) = 1"
| "launching d = 0"

text \<open>
  An event of a run in which the thread group refuses no goroutine and no scan
  ends with an error that carries the cancellation marker.
\<close>

fun clean_event :: "event \<Rightarrow> bool" where
  "clean_event (Ev_go add_err io) = (add_err = None \<and> \<not> canceled (attemptError io))"
| "clean_event ev = True"

text \<open>What is taken for granted of \<^verbatim>\<open>benchmarkHost\<close>: it leaves the scan-thread counter alone.\<close>

definition benchmark_keeps_counter :: "ext \<Rightarrow> bool" where
  "benchmark_keeps_counter X = (\<forall>h d. scanThreads (snd (benchmarkHost X h d)) = scanThreads d)"

text \<open>The number of scan goroutines that have not run their decrement.\<close>

definition pending :: "worker list \<Rightarrow> int" where
  "pending ws = int (length (filter before_decrement ws))"

definition clean_worker :: "worker \<Rightarrow> bool" where
  "clean_worker w = (w_add_err w = None \<and> \<not> canceled (attemptError (w_io w)))"

text \<open>
  Two invariants: the first holds on every run, the second on the runs whose
  events are all clean.
\<close>

definition counter_bounded :: "sys \<Rightarrow> bool" where
  "counter_bounded s =
     (scanThreads (db s) \<le> 100 \<and> (disp s = D_inc \<longrightarrow> scanThreads (db s) < 100) \<and>
      pending (workers s) + launching (disp s) \<le> scanThreads (db s))"

definition counter_exact :: "sys \<Rightarrow> bool" where
  "counter_exact s =
     (scanThreads (db s) = pending (workers s) + launching (disp s) \<and>
      (\<forall>w \<in> set (workers s). clean_worker w))"

section \<open>Observers of a run\<close>

fun is_incrementSuccess :: "call \<Rightarrow> bool" where
  "is_incrementSuccess (Call_IncrementSuccessfulInteractions pk) = True"
| "is_incrementSuccess _ = False"

fun is_incrementFailure :: "call \<Rightarrow> bool" where
  "is_incrementFailure (Call_IncrementFailedInteractions pk) = True"
| "is_incrementFailure _ = False"

fun written_records :: "call list \<Rightarrow> HostScan list" where
  "written_records [] = []"
| "written_records (Call_updateScanHistory pk scan # cs) = scan # written_records cs"
| "written_records (c # cs) = written_records cs"

text \<open>The median in the specification's sense: the middle element in ascending order.\<close>

definition median :: "Duration list \<Rightarrow> Duration" where
  "median xs = sort xs ! (length xs div 2)"

section \<open>Concrete inputs\<close>

definition example_ext :: ext where
  "example_ext =
     \<lparr>EqualIPNets = (\<lambda>a b. a = b),
      SiamuxAddr = settings_bytes,
      updateHostHistoricInteractions =
        (\<lambda>h. h\<lparr>Interactions := (Interactions h)\<lparr>LastUpdate := 100\<rparr>\<rparr>),
      IncrementSuccessfulInteractions =
        (\<lambda>h. h\<lparr>Interactions :=
                  (Interactions h)\<lparr>RecentSuccesses := RecentSuccesses (Interactions h) + 1\<rparr>\<rparr>),
      IncrementFailedInteractions =
        (\<lambda>h. h\<lparr>Interactions :=
                  (Interactions h)\<lparr>RecentFailures := RecentFailures (Interactions h) + 1\<rparr>\<rparr>),
      updateScanHistory = (\<lambda>h s. (h\<lparr>ScanHistory := ScanHistory h @ [s]\<rparr>, None)),
      benchmarkHost = (\<lambda>h d. (h, d))\<rparr>"

definition example_host :: HostDBEntry where
  "example_host =
     \<lparr>ID = 1, PublicKey = ''pk1'', FirstSeen = 0, KnownSince = 0,
      NetAddress = ''host.example:9982'', Blocked = False, Uptime = 0, Downtime = 0,
      ScanHistory = [],
      LastBenchmark = \<lparr>bm_Timestamp = 0, bm_Success = False, bm_Error = [],
                        UploadSpeed = 0, DownloadSpeed = 0, TTFB = 0\<rparr>,
      Interactions = \<lparr>HistoricSuccesses = 0, HistoricFailures = 0, RecentSuccesses = 0,
                       RecentFailures = 0, LastUpdate = 0\<rparr>,
      LastSeen = 0, IPNets = [], LastIPChange = 0,
      host_Settings = HostSettings [], host_PriceTable = HostPriceTable []\<rparr>"

text \<open>The example host, scanned at instant 1000 with success.\<close>

definition fresh_host :: HostDBEntry where
  "fresh_host =
     example_host\<lparr>ScanHistory :=
       [\<lparr>Timestamp = 1000, Success = True, Latency = 120 * Millisecond, Error = [],
         Settings = HostSettings ''siamux.example:9983'',
         PriceTable = HostPriceTable ''table''\<rparr>],
       LastSeen := 1000\<rparr>"

text \<open>A scan that succeeds in 120 ms.\<close>

definition io_ok :: scan_io where
  "io_ok = \<lparr>lookup_result = ([''10.0.0.0/24''], None), ipchange_now = 1000,
            start_now = 1001, rhp2_result = (HostSettings ''siamux.example:9983'', None),
            since_start = 120 * Millisecond,
            rhp3_result = (HostPriceTable ''table'', None)\<rparr>"

text \<open>The first handshake succeeds, the second one fails.\<close>

definition io_v3_failed :: scan_io where
  "io_v3_failed = io_ok\<lparr>rhp3_result := (HostPriceTable [], Some ''EOF'')\<rparr>"

text \<open>The stop signal fires during the first handshake.\<close>

definition io_canceled :: scan_io where
  "io_canceled = io_ok\<lparr>rhp2_result := (HostSettings [], Some ''context canceled'')\<rparr>"

text \<open>The state while one worker scans the example host.\<close>

definition hdb_scanning :: HostDB where
  "hdb_scanning = NewHostDB\<lparr>scanMap := [''pk1'' \<mapsto> False], scanThreads := 1\<rparr>"

text \<open>Twenty-five latencies, 10 ms to 250 ms, in ascending order.\<close>

definition s3_latencies :: "Duration list" where
  "s3_latencies =
     map (\<lambda>k. k * Millisecond)
       [10, 20, 30, 40, 50, 60, 70, 80, 90, 100, 110, 120, 130, 140, 150, 160, 170, 180,
        190, 200, 210, 220, 230, 240, 250]"

section \<open>Concrete runs\<close>

text \<open>
  The dispatcher's part in queueing one host (lock, body, unlock), and in
  launching one scan goroutine from the head of the scan loop (test, lock,
  test, increment, pop, go, unlock).
\<close>

definition queue_events :: "Time \<Rightarrow> HostDBEntry \<Rightarrow> event list" where
  "queue_events now host = [Ev_queueScan now host, Ev_dispatcher, Ev_dispatcher]"

definition launch_events :: "go_error \<Rightarrow> scan_io \<Rightarrow> event list" where
  "launch_events add_err io = replicate 5 Ev_dispatcher @ [Ev_go add_err io, Ev_dispatcher]"

definition worker_steps :: "nat \<Rightarrow> nat \<Rightarrow> event list" where
  "worker_steps i n = replicate n (Ev_worker i)"

text \<open>A scan of the example host that succeeds with the latency given.\<close>

definition io_latency :: "Duration \<Rightarrow> scan_io" where
  "io_latency lat = io_ok\<lparr>since_start := lat\<rparr>"

text \<open>
  The example host is queued, its goroutine is launched, the dispatcher goes
  round to line 184 again, and the goroutine runs from its first statement to
  its return, alone.
\<close>

definition one_scan :: "Duration \<Rightarrow> event list" where
  "one_scan lat =
     queue_events 5000 example_host @ [Ev_dispatcher] @ launch_events None (io_latency lat) @
     replicate 3 Ev_dispatcher @ worker_steps 0 20"

text \<open>Twenty-four latencies, 20 ms to 250 ms, and the 24 scans that measure them one after the other.\<close>

definition ascending_latencies :: "Duration list" where
  "ascending_latencies =
     map (\<lambda>k. k * Millisecond)
       [20, 30, 40, 50, 60, 70, 80, 90, 100, 110, 120, 130, 140, 150, 160, 170, 180,
        190, 200, 210, 220, 230, 240, 250]"

definition warm_up :: "event list" where
  "warm_up = concat (map one_scan ascending_latencies)"

definition host_b :: HostDBEntry where
  "host_b = example_host\<lparr>PublicKey := ''pk2'', NetAddress := ''b.example:9982''\<rparr>"

text \<open>
  One scan of the example host on a new database, stopped after the decrement
  of line 159 and the unlock of line 160: the goroutine has still to return.
\<close>

definition scan_until_unlock :: "event list" where
  "scan_until_unlock =
     queue_events 5000 example_host @ [Ev_dispatcher] @ launch_events None io_ok @
     worker_steps 0 19"

text \<open>The same run stopped when the dispatcher is about to increment, and when the scan is under way.\<close>

definition run_until_increment :: "event list" where
  "run_until_increment = queue_events 5000 example_host @ replicate 4 Ev_dispatcher"

definition run_until_attempt :: "event list" where
  "run_until_attempt =
     queue_events 5000 example_host @ [Ev_dispatcher] @ launch_events None io_ok @
     worker_steps 0 9"

text \<open>
  The thread group refuses the scan goroutine of the example host. The
  dispatcher unlocks first (line 203) and then the goroutine (line 193), or the
  other way round.
\<close>

definition refused_scan_late :: "event list" where
  "refused_scan_late =
     queue_events 5000 example_host @ [Ev_dispatcher] @
     launch_events (Some ''thread group already stopped'') io_ok @ worker_steps 0 2"

definition refused_scan_early :: "event list" where
  "refused_scan_early =
     queue_events 5000 example_host @ [Ev_dispatcher] @ replicate 5 Ev_dispatcher @
     [Ev_go (Some ''thread group already stopped'') io_ok] @ worker_steps 0 2 @ [Ev_dispatcher]"

text \<open>The same for the benchmark goroutine of the freshly scanned host (lines 225 and 215).\<close>

definition refused_benchmark_late :: "event list" where
  "refused_benchmark_late =
     queue_events 5000 fresh_host @ replicate 7 Ev_dispatcher @
     [Ev_go (Some ''thread group already stopped'') io_ok, Ev_dispatcher] @ worker_steps 0 2"

definition refused_benchmark_early :: "event list" where
  "refused_benchmark_early =
     queue_events 5000 fresh_host @ replicate 7 Ev_dispatcher @
     [Ev_go (Some ''thread group already stopped'') io_ok] @ worker_steps 0 2 @ [Ev_dispatcher]"

text \<open>
  After the 24 scans, two hosts are scanned at the same time, with latencies of
  10 ms and 15 ms. Both goroutines pass the test of line 146 on a buffer of 24
  samples, then both append, then both go on to their return.
\<close>

definition two_scans_append :: "event list" where
  "two_scans_append =
     warm_up @ queue_events 5000 example_host @ queue_events 5000 host_b @ [Ev_dispatcher] @
     launch_events None (io_latency (10 * Millisecond)) @
     launch_events None (io_latency (15 * Millisecond)) @
     worker_steps 0 13 @ worker_steps 1 13 @ [Ev_worker 0, Ev_worker 1] @
     worker_steps 0 6 @ worker_steps 0 6"

text \<open>
  After the 24 scans, the scan of the example host appends its latency of 10 ms
  (line 147) and, before it sorts (line 150), the scan of the second host reads
  its timeout (lines 70 to 80).
\<close>

definition read_before_sort :: "event list" where
  "read_before_sort =
     warm_up @ queue_events 5000 example_host @ queue_events 5000 host_b @ [Ev_dispatcher] @
     launch_events None (io_latency (10 * Millisecond)) @
     launch_events None io_ok @
     worker_steps 0 14 @ worker_steps 1 9"

section \<open>Interval policy\<close>

lemma calculateScanInterval_table:
  "calculateScanInterval now host = interval_table now host"
  by (simp add: calculateScanInterval_def interval_table_def Since_def IsZero_def
      scanInterval_def Minute_def Hour_def maxDuration_def minDuration_def Let_def)

lemma interval_table_mono:
  "\<not> IsZero (LastSeen h2) \<Longrightarrow> now - LastSeen h1 \<le> now - LastSeen h2 \<Longrightarrow>
   interval_table now h1 \<le> interval_table now h2"
  by (simp add: interval_table_def Let_def Minute_def Hour_def)

text \<open>
  Claim C6. The interval computed for a host is the one of the table: 30 minutes
  when last-seen is unset or at most 24 hours ago, 1 hour up to 2 days, 2 hours
  up to 3 days, 4 hours up to 7 days, 6 hours up to 14 days, 12 hours up to 28
  days and 24 hours beyond. Between two hosts, the one seen longer ago (its
  last-seen being set) never gets the shorter interval.
\<close>

theorem interval_matches_table:
  "calculateScanInterval now host =
     (if IsZero (LastSeen host) \<or> now - LastSeen host \<le> 24 * Hour then 30 * Minute
      else if now - LastSeen host \<le> 2 * 24 * Hour then 1 * Hour
      else if now - LastSeen host \<le> 3 * 24 * Hour then 2 * Hour
      else if now - LastSeen host \<le> 7 * 24 * Hour then 4 * Hour
      else if now - LastSeen host \<le> 14 * 24 * Hour then 6 * Hour
      else if now - LastSeen host \<le> 28 * 24 * Hour then 12 * Hour
      else 24 * Hour)
   \<and> (\<not> IsZero (LastSeen h2) \<and> now - LastSeen h1 \<le> now - LastSeen h2 \<longrightarrow>
        calculateScanInterval now h1 \<le> calculateScanInterval now h2)"
  using interval_table_mono [of h2 now h1]
  by (simp add: calculateScanInterval_table) (simp add: interval_table_def Let_def)

theorem interval_matches_table_witness:
  "calculateScanInterval (40 * 24 * Hour) (example_host\<lparr>LastSeen := 35 * 24 * Hour\<rparr>) = 4 * Hour
   \<and> \<not> IsZero (LastSeen (example_host\<lparr>LastSeen := 35 * 24 * Hour\<rparr>))
   \<and> 40 * 24 * Hour - LastSeen (example_host\<lparr>LastSeen := 39 * 24 * Hour\<rparr>)
       \<le> 40 * 24 * Hour - LastSeen (example_host\<lparr>LastSeen := 35 * 24 * Hour\<rparr>)
   \<and> calculateScanInterval (40 * 24 * Hour) (example_host\<lparr>LastSeen := 39 * 24 * Hour\<rparr>)
       \<le> calculateScanInterval (40 * 24 * Hour) (example_host\<lparr>LastSeen := 35 * 24 * Hour\<rparr>)"
  using interval_matches_table [where now = "40 * 24 * Hour"
      and host = "example_host\<lparr>LastSeen := 35 * 24 * Hour\<rparr>"
      and ?h1.0 = "example_host\<lparr>LastSeen := 39 * 24 * Hour\<rparr>"
      and ?h2.0 = "example_host\<lparr>LastSeen := 35 * 24 * Hour\<rparr>"]
  by (simp add: IsZero_def Hour_def)

section \<open>Routing into the two queues\<close>

lemma Since_less_interval:
  "Since now t < calculateScanInterval now host \<longleftrightarrow> now - t < calculateScanInterval now host"
  by (simp add: calculateScanInterval_table interval_table_def Let_def Since_def
      maxDuration_def minDuration_def Minute_def Hour_def)

text \<open>
  Claim C7. A host that is not in flight goes to the benchmark queue exactly
  when its scan history is not empty and its latest record is younger than its
  interval; otherwise, so with an empty history too, it goes to the scan queue.
  Its entry in the in-flight map is true for the benchmark queue and false for
  the scan queue, and nothing else of the state changes.
\<close>

theorem queueScan_routes:
  "scanMap hdb (PublicKey host) = None \<Longrightarrow>
   fst (queueScan now host hdb) =
     (if ScanHistory host \<noteq> [] \<and>
         now - Timestamp (last (ScanHistory host)) < calculateScanInterval now host
      then hdb\<lparr>scanMap := (scanMap hdb)(PublicKey host \<mapsto> True),
               benchmarkList := benchmarkList hdb @ [host]\<rparr>
      else hdb\<lparr>scanMap := (scanMap hdb)(PublicKey host \<mapsto> False),
               scanList := scanList hdb @ [host]\<rparr>)"
  by (simp add: queueScan_def Let_def Since_less_interval)

theorem queueScan_routes_witness:
  "scanMap NewHostDB (PublicKey example_host) = None \<and>
   fst (queueScan 5000 example_host NewHostDB) =
     NewHostDB\<lparr>scanMap := [''pk1'' \<mapsto> False], scanList := [example_host]\<rparr> \<and>
   scanMap NewHostDB (PublicKey fresh_host) = None \<and>
   fst (queueScan 5000 fresh_host NewHostDB) =
     NewHostDB\<lparr>scanMap := [''pk1'' \<mapsto> True], benchmarkList := [fresh_host]\<rparr>"
  using queueScan_routes [of NewHostDB example_host 5000]
    queueScan_routes [of NewHostDB fresh_host 5000]
  by (simp add: NewHostDB_def example_host_def fresh_host_def calculateScanInterval_def
      IsZero_def scanInterval_def Minute_def)

text \<open>
  Claim C8. For a host whose public key is in the in-flight map, queueScan
  returns the state it was given: the queues, the map, the counter, the flag
  and the latency buffer are the same.
\<close>

theorem queueScan_in_flight_noop:
  "scanMap hdb (PublicKey host) \<noteq> None \<Longrightarrow> fst (queueScan now host hdb) = hdb"
  by (auto simp: queueScan_def)

theorem queueScan_in_flight_noop_witness:
  "scanMap hdb_scanning (PublicKey example_host) \<noteq> None \<and>
   fst (queueScan 5000 example_host hdb_scanning) = hdb_scanning"
proof -
  have h: "scanMap hdb_scanning (PublicKey example_host) \<noteq> None"
    by (simp add: hdb_scanning_def example_host_def)
  show ?thesis using h queueScan_in_flight_noop [OF h, of 5000] by simp
qed

section \<open>Facts about one scan\<close>

lemma wrap64_id: "- (2 ^ 63) \<le> x \<Longrightarrow> x < 2 ^ 63 \<Longrightarrow> wrap64 x = x"
  by (simp add: wrap64_def)

lemma att_err_protocolAttempt:
  "att_err (protocolAttempt X io h d) = attemptError io"
  by (simp add: protocolAttempt_def attemptError_def Let_def split: prod.splits option.splits)

lemma att_success_protocolAttempt:
  "att_success (protocolAttempt X io h d) = (snd (rhp2_result io) = None)"
  by (simp add: protocolAttempt_def Let_def split: prod.splits)

lemma att_latency_protocolAttempt:
  "att_latency (protocolAttempt X io h d) = since_start io"
  by (simp add: protocolAttempt_def Let_def split: prod.splits)

lemma written_records_append:
  "written_records (xs @ ys) = written_records xs @ written_records ys"
  by (induction xs rule: written_records.induct) simp_all

lemma att_calls_quiet:
  "written_records (att_calls (protocolAttempt X io h d)) = []"
  "filter is_incrementSuccess (att_calls (protocolAttempt X io h d)) = []"
  "filter is_incrementFailure (att_calls (protocolAttempt X io h d)) = []"
  by (simp_all add: protocolAttempt_def Let_def split: prod.splits)

lemma att_calls_deadline:
  "Call_WithTransportV2 (wrap64 (scanTimeout d + 4 * Minute)) (NetAddress h) (PublicKey h)
     \<in> set (att_calls (protocolAttempt X io h d))"
  by (simp add: protocolAttempt_def Let_def split: prod.splits)

text \<open>The scheduling state that a scan leaves.\<close>

lemma scanHost_state:
  "fst (snd (scanHost X io host hdb)) =
     (if canceled (attemptError io) then hdb
      else hdb\<lparr>initialScanLatencies :=
                 addLatency (snd (rhp2_result io) = None) (since_start io) (initialScanLatencies hdb),
               scanMap := (scanMap hdb)(PublicKey (fst (scanHost X io host hdb)) := None),
               scanThreads := wrap64 (scanThreads hdb - 1)\<rparr>)"
  by (simp add: scanHost_def Let_def att_err_protocolAttempt att_success_protocolAttempt
      att_latency_protocolAttempt split: prod.splits option.splits)

text \<open>A cancelled scan writes no record and calls neither increment, whatever the host.\<close>

lemma canceled_scan_is_silent:
  "canceled (attemptError io) \<Longrightarrow>
   written_records (snd (snd (scanHost X io host hdb))) = [] \<and>
   filter is_incrementSuccess (snd (snd (scanHost X io host hdb))) = [] \<and>
   filter is_incrementFailure (snd (snd (scanHost X io host hdb))) = []"
  by (simp add: scanHost_def Let_def att_err_protocolAttempt written_records_append
      att_calls_quiet split: option.splits)

section \<open>A scan that is cancelled\<close>

text \<open>
  Claim C1. The example host is in flight (its key is in the in-flight map and
  the counter is 1) and the first handshake ends with the error
  \<^verbatim>\<open>context canceled\<close>. The scan writes no record and calls neither
  increment, and it returns the scheduling state as it was: the key is still
  in the map and the counter is still 1, where the claim has the entry removed
  and the counter decremented.
\<close>

theorem scanHost_canceled_keeps_in_flight:
  "fst (snd (scanHost example_ext io_canceled example_host hdb_scanning)) = hdb_scanning \<and>
   scanMap hdb_scanning ''pk1'' = Some False \<and> scanThreads hdb_scanning = 1 \<and>
   written_records (snd (snd (scanHost example_ext io_canceled example_host hdb_scanning))) = [] \<and>
   filter is_incrementSuccess
     (snd (snd (scanHost example_ext io_canceled example_host hdb_scanning))) = [] \<and>
   filter is_incrementFailure
     (snd (snd (scanHost example_ext io_canceled example_host hdb_scanning))) = []"
  by (simp add: scanHost_def Let_def protocolAttempt_def canceled_def io_canceled_def io_ok_def
      hdb_scanning_def NewHostDB_def example_host_def example_ext_def resolveHost_def)

text \<open>
  Claim C10. When the attempt ends with a cancellation, the host that the scan
  leaves is the host after the two steps that precede the attempt: the IP
  networks and the time of their last change are the new ones if the lookup
  succeeded with a different set, and the historic interactions have been
  brought forward. Nothing of this is undone.
\<close>

theorem canceled_scan_keeps_earlier_updates:
  "canceled (attemptError io) \<Longrightarrow>
   fst (scanHost X io host hdb) =
     updateHostHistoricInteractions X
       (if snd (lookup_result io) = None \<and> \<not> EqualIPNets X (fst (lookup_result io)) (IPNets host)
        then host\<lparr>IPNets := fst (lookup_result io), LastIPChange := ipchange_now io\<rparr>
        else host)"
  by (simp add: scanHost_def Let_def att_err_protocolAttempt resolveHost_def split: prod.splits)

theorem canceled_scan_keeps_earlier_updates_witness:
  "canceled (attemptError io_canceled) \<and>
   fst (scanHost example_ext io_canceled example_host hdb_scanning) =
     example_host\<lparr>IPNets := [''10.0.0.0/24''], LastIPChange := 1000,
                  Interactions := (Interactions example_host)\<lparr>LastUpdate := 100\<rparr>\<rparr>"
proof -
  have h: "canceled (attemptError io_canceled)"
    by (simp add: canceled_def attemptError_def io_canceled_def io_ok_def)
  show ?thesis
    using h canceled_scan_keeps_earlier_updates [OF h, of example_ext example_host hdb_scanning]
    by (simp add: io_canceled_def io_ok_def example_ext_def example_host_def)
qed

section \<open>The record of a scan and the interaction counters\<close>

text \<open>
  Claim C2, as stated, fails: when the first handshake succeeds and the second
  one fails with \<^verbatim>\<open>EOF\<close>, the record written has the success flag set
  and the error text \<^verbatim>\<open>EOF\<close>, incrementSuccess is not called and
  incrementFailure is.
\<close>

theorem success_flag_with_error_text:
  "written_records (snd (snd (scanHost example_ext io_v3_failed example_host hdb_scanning))) =
     [\<lparr>Timestamp = 1001, Success = True, Latency = 120 * Millisecond, Error = ''EOF'',
       Settings = HostSettings ''siamux.example:9983'', PriceTable = HostPriceTable []\<rparr>] \<and>
   filter is_incrementSuccess
     (snd (snd (scanHost example_ext io_v3_failed example_host hdb_scanning))) = [] \<and>
   filter is_incrementFailure
     (snd (snd (scanHost example_ext io_v3_failed example_host hdb_scanning))) =
     [Call_IncrementFailedInteractions ''pk1'']"
  by (simp add: scanHost_def Let_def protocolAttempt_def canceled_def io_v3_failed_def io_ok_def
      hdb_scanning_def NewHostDB_def example_host_def example_ext_def resolveHost_def
      scanTimeout_def minScans_def)

text \<open>
  Claim C2, amended. A scan that is not abandoned on cancellation writes
  exactly one record: the start time, the latency, the settings and the price
  table received, the success flag set exactly when the first handshake
  succeeded, and as error text the text of the error the attempt ended with,
  empty when it ended with none. So an attempt without error gives a record
  with the flag set and an empty text. incrementSuccess is called, once,
  exactly when the attempt ended without error, and incrementFailure, once,
  exactly when it ended with an error that does not carry the cancellation
  marker. A scan abandoned on cancellation writes no record and calls neither.
\<close>

theorem scan_outcome_recorded:
  "(canceled (attemptError io) \<longrightarrow>
      written_records (snd (snd (scanHost X io host hdb))) = [] \<and>
      filter is_incrementSuccess (snd (snd (scanHost X io host hdb))) = [] \<and>
      filter is_incrementFailure (snd (snd (scanHost X io host hdb))) = []) \<and>
   (\<not> canceled (attemptError io) \<longrightarrow>
      written_records (snd (snd (scanHost X io host hdb))) =
        [\<lparr>Timestamp = start_now io, Success = (snd (rhp2_result io) = None),
          Latency = since_start io,
          Error = (case attemptError io of None \<Rightarrow> [] | Some e \<Rightarrow> e),
          Settings = fst (rhp2_result io),
          PriceTable = (if snd (rhp2_result io) = None then fst (rhp3_result io)
                        else HostPriceTable [])\<rparr>] \<and>
      (attemptError io = None \<longrightarrow> snd (rhp2_result io) = None) \<and>
      length (filter is_incrementSuccess (snd (snd (scanHost X io host hdb)))) =
        (if attemptError io = None then 1 else 0) \<and>
      length (filter is_incrementFailure (snd (snd (scanHost X io host hdb)))) =
        (if attemptError io = None then 0 else 1))"
proof -
  have a: "att_start (protocolAttempt X io h d) = start_now io"
    "att_settings (protocolAttempt X io h d) = fst (rhp2_result io)"
    "att_pt (protocolAttempt X io h d) =
       (if snd (rhp2_result io) = None then fst (rhp3_result io) else HostPriceTable [])"
    for h d
    by (simp_all add: protocolAttempt_def Let_def split: prod.splits)
  have "\<not> canceled (attemptError io) \<Longrightarrow>
      written_records (snd (snd (scanHost X io host hdb))) =
        [\<lparr>Timestamp = start_now io, Success = (snd (rhp2_result io) = None),
          Latency = since_start io,
          Error = (case attemptError io of None \<Rightarrow> [] | Some e \<Rightarrow> e),
          Settings = fst (rhp2_result io),
          PriceTable = (if snd (rhp2_result io) = None then fst (rhp3_result io)
                        else HostPriceTable [])\<rparr>]"
    by (auto simp: scanHost_def Let_def att_err_protocolAttempt att_success_protocolAttempt
        att_latency_protocolAttempt a written_records_append att_calls_quiet attemptError_def
        split: prod.splits option.splits if_splits)
  moreover have "\<not> canceled (attemptError io) \<Longrightarrow>
      length (filter is_incrementSuccess (snd (snd (scanHost X io host hdb)))) =
        (if attemptError io = None then 1 else 0) \<and>
      length (filter is_incrementFailure (snd (snd (scanHost X io host hdb)))) =
        (if attemptError io = None then 0 else 1)"
    by (auto simp: scanHost_def Let_def att_err_protocolAttempt att_calls_quiet
        split: prod.splits option.splits)
  moreover have "attemptError io = None \<Longrightarrow> snd (rhp2_result io) = None"
    by (simp add: attemptError_def split: option.splits)
  ultimately show ?thesis
    using canceled_scan_is_silent [of io X host hdb] by blast
qed

theorem scan_outcome_recorded_witness:
  "canceled (attemptError io_canceled) \<and>
   written_records (snd (snd (scanHost example_ext io_canceled example_host hdb_scanning))) = [] \<and>
   \<not> canceled (attemptError io_v3_failed) \<and>
   attemptError io_v3_failed = Some ''EOF'' \<and>
   written_records (snd (snd (scanHost example_ext io_v3_failed example_host hdb_scanning))) =
     [\<lparr>Timestamp = 1001, Success = True, Latency = 120 * Millisecond, Error = ''EOF'',
       Settings = HostSettings ''siamux.example:9983'', PriceTable = HostPriceTable []\<rparr>] \<and>
   length (filter is_incrementFailure
     (snd (snd (scanHost example_ext io_v3_failed example_host hdb_scanning)))) = 1 \<and>
   \<not> canceled (attemptError io_ok) \<and> attemptError io_ok = None \<and>
   length (filter is_incrementSuccess
     (snd (snd (scanHost example_ext io_ok example_host hdb_scanning)))) = 1"
proof -
  have c: "canceled (attemptError io_canceled)" "\<not> canceled (attemptError io_v3_failed)"
    "\<not> canceled (attemptError io_ok)" "attemptError io_v3_failed = Some ''EOF''"
    "attemptError io_ok = None"
    by (simp_all add: canceled_def attemptError_def io_canceled_def io_v3_failed_def io_ok_def)
  show ?thesis
    using c scan_outcome_recorded [of io_canceled example_ext example_host hdb_scanning]
      scan_outcome_recorded [of io_v3_failed example_ext example_host hdb_scanning]
      scan_outcome_recorded [of io_ok example_ext example_host hdb_scanning]
    by (simp add: io_v3_failed_def io_ok_def)
qed

section \<open>A scan that runs alone\<close>

lemma scanHost_host:
  "fst (scanHost X io host hdb) =
     (if canceled (attemptError io)
      then updateHostHistoricInteractions X (resolveHost X io host)
      else recordScan X io (updateHostHistoricInteractions X (resolveHost X io host)))"
proof -
  have a: "att_start (protocolAttempt X io h d) = start_now io"
    "att_settings (protocolAttempt X io h d) = fst (rhp2_result io)"
    "att_pt (protocolAttempt X io h d) =
       (if snd (rhp2_result io) = None then fst (rhp3_result io) else HostPriceTable [])"
    for h d
    by (simp_all add: protocolAttempt_def Let_def split: prod.splits)
  show ?thesis
    by (auto simp: scanHost_def recordScan_def Let_def att_err_protocolAttempt
        att_success_protocolAttempt att_latency_protocolAttempt a
        split: prod.splits option.splits)
qed

lemmas exec_simps = worker_steps_def eval_nat_numeral step_def Lock_def Unlock_def goto_def
  nth_append_length list_update_length scanHost_state scanHost_host scanTimeout_def
  addLatency_def minScans_def Let_def

text \<open>
  The two descriptions of a scan agree: a scan goroutine that no other
  goroutine interrupts goes, in 10 to 19 steps, from the first statement of
  \<^verbatim>\<open>scanHost\<close> to its return, and leaves the shared state and the host
  as \<open>scanHost\<close> gives them; the timeout it has used is \<open>scanTimeout\<close>.
\<close>

lemma scan_alone_agrees:
  "\<exists>n. run X (worker_steps (length ws1) n)
          \<lparr>db = d, mu = False, disp = dp,
           workers = ws1 @ \<lparr>w_kind = Scan_worker, w_pc = W_resolve, w_add_err = None, w_io = io,
                             w_host = host, w_timeout = t\<rparr> # ws2,
           crashed = None\<rparr>
      = Some \<lparr>db = fst (snd (scanHost X io host d)), mu = False, disp = dp,
              workers = ws1 @ \<lparr>w_kind = Scan_worker, w_pc = W_exit, w_add_err = None, w_io = io,
                                w_host = fst (scanHost X io host d),
                                w_timeout = scanTimeout d\<rparr> # ws2,
              crashed = None\<rparr>"
proof -
  consider
      (a) "length (initialScanLatencies d) = 25" "canceled (attemptError io)"
    | (b) "length (initialScanLatencies d) \<noteq> 25" "canceled (attemptError io)"
    | (c) "length (initialScanLatencies d) = 25" "\<not> canceled (attemptError io)"
    | (d) "length (initialScanLatencies d) \<noteq> 25" "\<not> canceled (attemptError io)"
          "\<not> (snd (rhp2_result io) = None \<and> length (initialScanLatencies d) < 25)"
    | (e) "\<not> canceled (attemptError io)"
          "snd (rhp2_result io) = None" "length (initialScanLatencies d) < 24"
    | (f) "\<not> canceled (attemptError io)"
          "snd (rhp2_result io) = None" "length (initialScanLatencies d) = 24"
    by linarith
  then show ?thesis
  proof cases
    case a
    then show ?thesis by (intro exI [of _ 11]) (simp add: exec_simps)
  next
    case b
    then show ?thesis by (intro exI [of _ 10]) (simp add: exec_simps)
  next
    case c
    then show ?thesis by (intro exI [of _ 17]) (simp add: exec_simps)
  next
    case d
    then show ?thesis by (intro exI [of _ 16]) (auto simp add: exec_simps)
  next
    case e
    then show ?thesis by (intro exI [of _ 18]) (simp add: exec_simps)
  next
    case f
    then show ?thesis by (intro exI [of _ 19]) (simp add: exec_simps)
  qed
qed

text \<open>
  Taken one at a time, scans keep the buffer at 25 samples at most and sorted
  once it holds 25, and they leave a buffer of 25 samples as it is.
\<close>

lemma addLatency_alone:
  assumes "length lats \<le> 25" and "length lats = 25 \<longrightarrow> sorted lats"
  shows "length (addLatency success latency lats) \<le> 25 \<and>
    (length (addLatency success latency lats) = 25 \<longrightarrow> sorted (addLatency success latency lats)) \<and>
    (length lats = 25 \<longrightarrow> addLatency success latency lats = lats)"
  using assms by (auto simp: addLatency_def Let_def)


lemma scanTimeout_few: "length (initialScanLatencies hdb) < 25 \<Longrightarrow> scanTimeout hdb = 2 * Minute"
  by (simp add: scanTimeout_def minScans_def)

lemma median_sorted: "sorted xs \<Longrightarrow> median xs = xs ! (length xs div 2)"
  by (simp add: median_def sorted_sort_id)

lemma scanTimeout_full:
  assumes "length (initialScanLatencies hdb) = 25" and "sorted (initialScanLatencies hdb)"
    and "- (2 ^ 63) \<le> 5 * median (initialScanLatencies hdb)"
    and "5 * median (initialScanLatencies hdb) < 2 ^ 63"
  shows "scanTimeout hdb = min (5 * median (initialScanLatencies hdb)) (2 * Minute)"
proof -
  have m: "median (initialScanLatencies hdb) = initialScanLatencies hdb ! 12"
    using assms(1,2) by (simp add: median_sorted)
  have "wrap64 (initialScanLatencies hdb ! 12 * 5) = 5 * (initialScanLatencies hdb ! 12)"
    using assms(3,4) unfolding m by (subst wrap64_id) simp_all
  then show ?thesis
    using assms(1) by (simp add: scanTimeout_def minScans_def Let_def m min_def)
qed

lemma s3_facts:
  "length s3_latencies = 25" "sorted s3_latencies" "median s3_latencies = 130 * Millisecond"
  by (simp_all add: s3_latencies_def median_def Millisecond_def)

text \<open>Scenario S3 of the specification: the buffer is full and sorted, the timeout is 650 ms.\<close>

lemma scanTimeout_s3:
  "scanTimeout (NewHostDB\<lparr>initialScanLatencies := s3_latencies\<rparr>) = 650 * Millisecond"
  using scanTimeout_full [of "NewHostDB\<lparr>initialScanLatencies := s3_latencies\<rparr>"] s3_facts
  by (simp add: Millisecond_def Minute_def)

section \<open>A goroutine refused by the thread group\<close>

text \<open>
  Claim C9. The thread group refuses the goroutine that the dispatcher has
  just launched for the example host. The goroutine unlocks the mutex, which
  it never locked, and the dispatcher unlocks it too: whichever comes second
  unlocks a mutex that is not held, and the process ends with a fatal error.
  This holds for the scan goroutine and for the benchmark goroutine, where the
  claim has the worker return without any effect.
\<close>

theorem refused_worker_is_fatal:
  "map_option crashed (run example_ext refused_scan_late NewSys)
     = Some (Some Unlock_of_unlocked_mutex) \<and>
   map_option crashed (run example_ext refused_scan_early NewSys)
     = Some (Some Unlock_of_unlocked_mutex) \<and>
   map_option crashed (run example_ext refused_benchmark_late NewSys)
     = Some (Some Unlock_of_unlocked_mutex) \<and>
   map_option crashed (run example_ext refused_benchmark_early NewSys)
     = Some (Some Unlock_of_unlocked_mutex)"
  by code_simp

section \<open>The scan-thread counter\<close>

lemma queueScan_frame:
  "initialScanLatencies (fst (queueScan now host hdb)) = initialScanLatencies hdb"
  "scanThreads (fst (queueScan now host hdb)) = scanThreads hdb"
  "benchmarking (fst (queueScan now host hdb)) = benchmarking hdb"
  by (simp_all add: queueScan_def Let_def split: option.splits)

lemma pending_snoc: "pending (ws @ [w]) = pending ws + (if before_decrement w then 1 else 0)"
  by (simp add: pending_def)

lemma pending_update:
  "i < length ws \<Longrightarrow>
   pending (ws[i := w]) = pending ws - (if before_decrement (ws ! i) then 1 else 0)
                        + (if before_decrement w then 1 else 0)"
proof -
  assume i: "i < length ws"
  have a: "ws = take i ws @ ws ! i # drop (Suc i) ws"
    using i by (rule id_take_nth_drop)
  have b: "ws[i := w] = take i ws @ w # drop (Suc i) ws"
    using i by (rule upd_conv_take_nth_drop)
  have "pending ws = pending (take i ws @ ws ! i # drop (Suc i) ws)"
    using a by simp
  then show ?thesis
    unfolding b by (simp add: pending_def)
qed

lemma pending_return:
  "i < length ws \<Longrightarrow>
   pending (take i ws @ drop (Suc i) ws) = pending ws - (if before_decrement (ws ! i) then 1 else 0)"
proof -
  assume i: "i < length ws"
  have a: "ws = take i ws @ ws ! i # drop (Suc i) ws"
    using i by (rule id_take_nth_drop)
  have "pending ws = pending (take i ws @ ws ! i # drop (Suc i) ws)"
    using a by simp
  then show ?thesis
    by (simp add: pending_def)
qed

lemma pending_nonneg: "0 \<le> pending ws"
  by (simp add: pending_def)

lemma pending_pos: "i < length ws \<Longrightarrow> before_decrement (ws ! i) \<Longrightarrow> 1 \<le> pending ws"
proof -
  assume "i < length ws" "before_decrement (ws ! i)"
  then have "ws ! i \<in> set (filter before_decrement ws)" by simp
  then have "filter before_decrement ws \<noteq> []" by (metis empty_iff empty_set)
  then show ?thesis by (cases "filter before_decrement ws") (simp_all add: pending_def)
qed

lemma Unlock_sel [simp]:
  "db (Unlock s) = db s" "disp (Unlock s) = disp s" "workers (Unlock s) = workers s"
  by (simp_all add: Unlock_def)

lemma goto_sel [simp]:
  "db (goto i w pc s) = db s" "disp (goto i w pc s) = disp s"
  "workers (goto i w pc s) = (workers s)[i := w\<lparr>w_pc := pc\<rparr>]"
  by (simp_all add: goto_def)

lemma return_sel [simp]:
  "db (return i s) = db s" "disp (return i s) = disp s"
  "workers (return i s) = take i (workers s) @ drop (Suc i) (workers s)"
  by (simp_all add: return_def)

text \<open>What one step of a goroutine does to the counter and to the number of pending scans.\<close>

lemma scanWorker_effect:
  assumes "scanWorker X i w pc s = Some s'" and "i < length (workers s)"
    and "workers s ! i = w" and "w_pc w = pc" and "w_kind w = Scan_worker"
  shows "disp s' = disp s \<and>
    (if pc = W_dec
     then scanThreads (db s') = wrap64 (scanThreads (db s) - 1) \<and>
          pending (workers s') = pending (workers s) - 1
     else scanThreads (db s') = scanThreads (db s) \<and>
          pending (workers s') \<le> pending (workers s) \<and>
          (w_add_err w = None \<and> \<not> canceled (attemptError (w_io w)) \<longrightarrow>
             pending (workers s') = pending (workers s)))"
  using assms
  by (cases pc)
    (auto simp: pending_update pending_return before_decrement_def Lock_def Let_def
      split: if_splits)

lemma benchmarkWorker_effect:
  assumes "benchmarkWorker X i w pc s = Some s'" and "i < length (workers s)"
    and "workers s ! i = w" and "w_pc w = pc" and "w_kind w = Benchmark_worker"
    and "benchmark_keeps_counter X"
  shows "disp s' = disp s \<and> scanThreads (db s') = scanThreads (db s) \<and>
    pending (workers s') = pending (workers s)"
  using assms
  by (cases pc)
    (auto simp: pending_update pending_return before_decrement_def benchmark_keeps_counter_def
      split: if_splits prod.splits, metis snd_conv)

lemma dispatcher_effect:
  assumes "dispatcher d s = Some s'" and "disp s = d" and "counter_bounded s"
  shows "counter_bounded s' \<and> workers s' = workers s \<and>
         scanThreads (db s') = scanThreads (db s) + launching (disp s') - launching (disp s)"
proof -
  have nn: "0 \<le> scanThreads (db s)"
    using assms(3) pending_nonneg [of "workers s"]
    by (cases "disp s") (simp_all add: counter_bounded_def)
  have w: "scanThreads (db s) < 100 \<Longrightarrow> wrap64 (scanThreads (db s) + 1) = scanThreads (db s) + 1"
    using nn by (intro wrap64_id) simp_all
  show ?thesis
    using assms w
    by (cases d)
      (auto simp: counter_bounded_def Lock_def queueScan_frame maxScanThreads_def
        split: if_splits list.splits)
qed

lemma clean_worker_upd [simp]:
  "clean_worker (w\<lparr>w_pc := pc\<rparr>) = clean_worker w"
  "clean_worker (w\<lparr>w_host := h\<rparr>) = clean_worker w"
  "clean_worker (w\<lparr>w_timeout := t\<rparr>) = clean_worker w"
  by (simp_all add: clean_worker_def)

lemma in_set_updateD: "x \<in> set (ws[i := w]) \<Longrightarrow> x = w \<or> x \<in> set ws"
  using set_update_subset_insert [of ws i w] by auto

lemma scanWorker_clean:
  assumes "scanWorker X i w pc s = Some s'" and "i < length (workers s)"
    and "workers s ! i = w" and "\<forall>w \<in> set (workers s). clean_worker w"
  shows "\<forall>w \<in> set (workers s'). clean_worker w"
proof -
  have cw: "clean_worker w" using assms(2,3,4) by auto
  show ?thesis
    using assms(1,4) cw
    by (cases pc)
      (auto simp: Lock_def Let_def split: if_splits
        dest!: in_set_updateD in_set_takeD in_set_dropD)
qed

lemma benchmarkWorker_clean:
  assumes "benchmarkWorker X i w pc s = Some s'" and "i < length (workers s)"
    and "workers s ! i = w" and "\<forall>w \<in> set (workers s). clean_worker w"
  shows "\<forall>w \<in> set (workers s'). clean_worker w"
proof -
  have cw: "clean_worker w" using assms(2,3,4) by auto
  show ?thesis
    using assms(1,4) cw
    by (cases pc)
      (auto simp: Lock_def Let_def split: if_splits prod.splits
        dest!: in_set_updateD in_set_takeD in_set_dropD)
qed

text \<open>Every step keeps the first invariant.\<close>

lemma step_counter_bounded:
  assumes "step X ev s = Some s'" and "benchmark_keeps_counter X" and "counter_bounded s"
  shows "counter_bounded s'"
proof (cases ev)
  case (Ev_queueScan now host)
  then show ?thesis
    using assms by (auto simp: step_def counter_bounded_def Lock_def split: if_splits)
next
  case (Ev_go add_err io)
  then show ?thesis
    using assms
    by (auto simp: step_def counter_bounded_def pending_snoc before_decrement_def new_worker_def
        split: if_splits dpc.splits)
next
  case Ev_dispatcher
  then show ?thesis
    using assms dispatcher_effect [of "disp s" s s'] by (auto simp: step_def split: if_splits)
next
  case (Ev_worker i)
  with assms(1) have i: "i < length (workers s)"
    by (auto simp: step_def split: if_splits)
  let ?w = "workers s ! i"
  show ?thesis
  proof (cases "w_kind ?w")
    case Scan_worker
    with Ev_worker assms(1) i have st: "scanWorker X i ?w (w_pc ?w) s = Some s'"
      by (auto simp: step_def split: if_splits)
    note e = scanWorker_effect [OF st i refl refl Scan_worker]
    show ?thesis
    proof (cases "w_pc ?w = W_dec")
      case True
      then have "before_decrement ?w"
        using Scan_worker by (simp add: before_decrement_def)
      then have "1 \<le> pending (workers s)" using i by (rule pending_pos [rotated])
      moreover have "0 \<le> launching (disp s)" by (cases "disp s") simp_all
      ultimately have lo: "1 \<le> scanThreads (db s)"
        using assms(3) by (simp add: counter_bounded_def)
      have hi: "scanThreads (db s) \<le> 100" using assms(3) by (simp add: counter_bounded_def)
      have "wrap64 (scanThreads (db s) - 1) = scanThreads (db s) - 1"
        using lo hi by (intro wrap64_id) simp_all
      with e True assms(3) show ?thesis by (simp add: counter_bounded_def)
    next
      case False
      with e assms(3) show ?thesis by (auto simp: counter_bounded_def)
    qed
  next
    case Benchmark_worker
    with Ev_worker assms(1) i have st: "benchmarkWorker X i ?w (w_pc ?w) s = Some s'"
      by (auto simp: step_def split: if_splits)
    from benchmarkWorker_effect [OF st i refl refl Benchmark_worker assms(2)] assms(3)
    show ?thesis by (simp add: counter_bounded_def)
  qed
qed

text \<open>Every clean step keeps the second one.\<close>

lemma step_counter_exact:
  assumes "step X ev s = Some s'" and "clean_event ev" and "benchmark_keeps_counter X"
    and "counter_bounded s" and "counter_exact s"
  shows "counter_exact s'"
proof (cases ev)
  case (Ev_queueScan now host)
  then show ?thesis
    using assms by (auto simp: step_def counter_exact_def Lock_def split: if_splits)
next
  case (Ev_go add_err io)
  then show ?thesis
    using assms
    by (auto simp: step_def counter_exact_def pending_snoc before_decrement_def new_worker_def
        clean_worker_def split: if_splits dpc.splits)
next
  case Ev_dispatcher
  then show ?thesis
    using assms dispatcher_effect [of "disp s" s s']
    by (auto simp: step_def counter_exact_def split: if_splits)
next
  case (Ev_worker i)
  with assms(1) have i: "i < length (workers s)"
    by (auto simp: step_def split: if_splits)
  let ?w = "workers s ! i"
  have cw: "clean_worker ?w" using assms(5) i by (simp add: counter_exact_def)
  show ?thesis
  proof (cases "w_kind ?w")
    case Scan_worker
    with Ev_worker assms(1) i have st: "scanWorker X i ?w (w_pc ?w) s = Some s'"
      by (auto simp: step_def split: if_splits)
    note e = scanWorker_effect [OF st i refl refl Scan_worker]
    have c: "\<forall>w \<in> set (workers s'). clean_worker w"
      using scanWorker_clean [OF st i refl] assms(5) by (simp add: counter_exact_def)
    show ?thesis
    proof (cases "w_pc ?w = W_dec")
      case True
      then have "before_decrement ?w"
        using Scan_worker by (simp add: before_decrement_def)
      then have "1 \<le> pending (workers s)" using i by (rule pending_pos [rotated])
      moreover have "0 \<le> launching (disp s)" by (cases "disp s") simp_all
      ultimately have lo: "1 \<le> scanThreads (db s)"
        using assms(4) by (simp add: counter_bounded_def)
      have hi: "scanThreads (db s) \<le> 100" using assms(4) by (simp add: counter_bounded_def)
      have "wrap64 (scanThreads (db s) - 1) = scanThreads (db s) - 1"
        using lo hi by (intro wrap64_id) simp_all
      with e True assms(5) c show ?thesis by (simp add: counter_exact_def)
    next
      case False
      with e assms(5) c cw show ?thesis by (auto simp: counter_exact_def clean_worker_def)
    qed
  next
    case Benchmark_worker
    with Ev_worker assms(1) i have st: "benchmarkWorker X i ?w (w_pc ?w) s = Some s'"
      by (auto simp: step_def split: if_splits)
    from benchmarkWorker_effect [OF st i refl refl Benchmark_worker assms(3)]
      benchmarkWorker_clean [OF st i refl] assms(5)
    show ?thesis by (simp add: counter_exact_def)
  qed
qed

lemma run_counter_bounded:
  "run X evs s = Some s' \<Longrightarrow> benchmark_keeps_counter X \<Longrightarrow> counter_bounded s \<Longrightarrow>
   counter_bounded s'"
proof (induction evs arbitrary: s)
  case Nil
  then show ?case by simp
next
  case (Cons ev evs)
  then show ?case
    by (auto split: option.splits dest: step_counter_bounded)
qed

lemma run_counter_exact:
  "run X evs s = Some s' \<Longrightarrow> list_all clean_event evs \<Longrightarrow> benchmark_keeps_counter X \<Longrightarrow>
   counter_bounded s \<Longrightarrow> counter_exact s \<Longrightarrow> counter_exact s'"
proof (induction evs arbitrary: s)
  case Nil
  then show ?case by simp
next
  case (Cons ev evs)
  from Cons.prems(1) obtain s1 where s1: "step X ev s = Some s1" and r: "run X evs s1 = Some s'"
    by (auto split: option.splits)
  have "counter_bounded s1" using step_counter_bounded [OF s1 Cons.prems(3,4)] .
  moreover have "counter_exact s1"
    using step_counter_exact [OF s1 _ Cons.prems(3,4,5)] Cons.prems(2) by simp
  ultimately show ?case
    using Cons.IH [OF r] Cons.prems(2,3) by simp
qed

lemma NewSys_counter: "counter_bounded NewSys" "counter_exact NewSys"
  by (simp_all add: counter_bounded_def counter_exact_def NewSys_def NewHostDB_def pending_def)

text \<open>
  Claim C3, as stated, fails, also on a run where nothing goes wrong: the
  example host is scanned with success on a new database, and once its
  goroutine has run the decrement and the unlock of lines 159 and 160 the
  counter is 0 while the goroutine has not returned yet.
\<close>

theorem counter_below_live_workers:
  "list_all clean_event scan_until_unlock \<and>
   map_option (\<lambda>s. (scanThreads (db s), map w_kind (workers s), map w_pc (workers s), mu s,
                     crashed s))
     (run example_ext scan_until_unlock NewSys)
   = Some (0, [Scan_worker], [W_exit], False, None)"
  by code_simp

text \<open>
  Claim C3, amended. On every run the counter is at most 100, and whenever the
  dispatcher is about to increment it (line 188) it is below 100. On every run
  in which the thread group refuses no goroutine and no scan ends on
  cancellation, the counter equals the number of scan goroutines that were
  launched and have not yet run their decrement (line 159), plus one while the
  dispatcher stands between its increment and the go statement (lines 188 to
  191); so it is never more than the number of scan goroutines that have not
  returned, plus that one. It is taken for granted that \<^verbatim>\<open>benchmarkHost\<close> leaves the
  counter alone.
\<close>

theorem scanThreads_counts_pending:
  assumes "run X evs NewSys = Some s" and "benchmark_keeps_counter X"
  shows "scanThreads (db s) \<le> 100 \<and>
    (disp s = D_inc \<longrightarrow> scanThreads (db s) < 100) \<and>
    (list_all clean_event evs \<longrightarrow>
       scanThreads (db s) =
         int (length (filter before_decrement (workers s))) + launching (disp s) \<and>
       scanThreads (db s) \<le>
         int (length (filter (\<lambda>w. w_kind w = Scan_worker) (workers s))) + launching (disp s))"
proof -
  have l: "length (filter before_decrement ws) \<le> length (filter (\<lambda>w. w_kind w = Scan_worker) ws)"
    for ws
    by (induction ws) (auto simp: before_decrement_def)
  have b: "counter_bounded s"
    using run_counter_bounded [OF assms NewSys_counter(1)] .
  have "counter_exact s" if "list_all clean_event evs"
    using run_counter_exact [OF assms(1) that assms(2) NewSys_counter] .
  with b l [of "workers s"] show ?thesis
    by (auto simp: counter_bounded_def counter_exact_def pending_def)
qed

theorem scanThreads_counts_pending_witness:
  "benchmark_keeps_counter example_ext \<and>
   list_all clean_event run_until_attempt \<and>
   (\<exists>s. run example_ext run_until_attempt NewSys = Some s \<and>
        scanThreads (db s) = 1 \<and> map w_pc (workers s) = [W_attempt] \<and>
        scanThreads (db s) \<le> 100 \<and>
        scanThreads (db s) =
          int (length (filter before_decrement (workers s))) + launching (disp s)) \<and>
   (\<exists>s. run example_ext run_until_increment NewSys = Some s \<and>
        disp s = D_inc \<and> scanThreads (db s) < 100)"
proof -
  have k: "benchmark_keeps_counter example_ext"
    by (simp add: benchmark_keeps_counter_def example_ext_def)
  have c: "list_all clean_event run_until_attempt"
    by code_simp
  have "map_option (\<lambda>s. (scanThreads (db s), map w_pc (workers s)))
          (run example_ext run_until_attempt NewSys) = Some (1, [W_attempt])"
    by code_simp
  then obtain s1 where s1: "run example_ext run_until_attempt NewSys = Some s1"
    "scanThreads (db s1) = 1" "map w_pc (workers s1) = [W_attempt]"
    by auto
  have "map_option disp (run example_ext run_until_increment NewSys) = Some D_inc"
    by code_simp
  then obtain s2 where s2: "run example_ext run_until_increment NewSys = Some s2"
    "disp s2 = D_inc"
    by auto
  show ?thesis
    using k c s1 s2 scanThreads_counts_pending [OF s1(1) k]
      scanThreads_counts_pending [OF s2(1) k]
    by auto
qed

section \<open>The latency buffer under concurrent scans\<close>

text \<open>
  Claim C4. With 24 samples in the buffer, two scans that succeed at the same
  time both find fewer than 25 samples at line 146 and both append at line
  147: lines 146 to 154 do not hold the mutex. The buffer ends with 26
  samples, the last two out of order, and is never sorted, where the claim
  has at most 25 samples, sorted once.
\<close>

theorem two_scans_overfill_buffer:
  "map_option (\<lambda>s. (initialScanLatencies (db s), map w_pc (workers s), crashed s))
     (run example_ext two_scans_append NewSys)
   = Some (ascending_latencies @ [10 * Millisecond, 15 * Millisecond], [], None) \<and>
   length (ascending_latencies @ [10 * Millisecond, 15 * Millisecond]) = 26 \<and>
   \<not> sorted (ascending_latencies @ [10 * Millisecond, 15 * Millisecond])"
  by code_simp

text \<open>
  Claim C5. With 24 samples in the buffer, a scan appends a latency of 10 ms
  and, before it sorts, another scan reads its timeout: the buffer holds 25
  samples, their median is 130 ms, and the timeout read is five times the
  sample in the middle of the unsorted buffer, 700 ms, where the claim has
  650 ms.
\<close>

theorem timeout_read_before_sort:
  "map_option (\<lambda>s. (initialScanLatencies (db s), map (\<lambda>w. (w_pc w, w_timeout w)) (workers s),
                     crashed s))
     (run example_ext read_before_sort NewSys)
   = Some (ascending_latencies @ [10 * Millisecond],
           [(W_lat_test2, 2 * Minute), (W_t_unlock, 700 * Millisecond)], None) \<and>
   length (ascending_latencies @ [10 * Millisecond]) = 25 \<and>
   min (5 * median (ascending_latencies @ [10 * Millisecond])) (2 * Minute) = 650 * Millisecond"
  by code_simp

end
